theory Spec2Isabelle
  imports Main "HOL-Library.Signed_Division" "HOL-Library.Sublist"
begin

section \<open>Week arithmetic (src/utils/utils.ts)\<close>

subsection \<open>The moment library, as far as utils.ts uses it\<close>

text \<open>
  utils.ts calls four operations of a moment object: \<open>day()\<close>, \<open>clone()\<close>,
  \<open>subtract(n, 'days')\<close> and \<open>format('MMMM Do')\<close>. A valid moment is a local calendar
  day, a time of day, and the locale data the moment was created with. The calendar day
  is kept as the number of days since 1970-01-01 (a Thursday). The locale data carries
  what the library's locale-aware operations read: the month names and the ordinal
  rendering used by the format tokens \<open>MMMM\<close> and \<open>Do\<close>, and the first day of the week
  used by \<open>weekday()\<close>.
\<close>

record Locale =
  months :: "nat \<Rightarrow> string"
  ordinal :: "nat \<Rightarrow> string"
  week_dow :: int

record Moment =
  day_number :: int
  ms_of_day :: nat
  loc :: Locale

text \<open>Decimal rendering of a natural number.\<close>

fun digit_char :: "nat \<Rightarrow> char" where
  "digit_char n = char_of (48 + n)"

fun show_nat :: "nat \<Rightarrow> string" where
  "show_nat n = (if n < 10 then [digit_char n] else show_nat (n div 10) @ [digit_char (n mod 10)])"

text \<open>The proleptic Gregorian calendar: day number to (year, month 1..12, day 1..31) and back.\<close>

definition civil_from_days :: "int \<Rightarrow> int \<times> nat \<times> nat" where
  "civil_from_days z0 =
     (let z = z0 + 719468;
          era = z div 146097;
          doe = z mod 146097;
          yoe = (doe - doe div 1460 + doe div 36524 - doe div 146096) div 365;
          doy = doe - (365 * yoe + yoe div 4 - yoe div 100);
          mp = (5 * doy + 2) div 153;
          d = doy - (153 * mp + 2) div 5 + 1;
          m = (if mp < 10 then mp + 3 else mp - 9);
          y = yoe + era * 400 + (if m \<le> 2 then 1 else 0)
      in (y, nat m, nat d))"

definition days_from_civil :: "int \<Rightarrow> nat \<Rightarrow> nat \<Rightarrow> int" where
  "days_from_civil y0 m d =
     (let y = (if m \<le> 2 then y0 - 1 else y0);
          era = y div 400;
          yoe = y mod 400;
          mp = (if m > 2 then int m - 3 else int m + 9);
          doy = (153 * mp + 2) div 5 + int d - 1;
          doe = yoe * 365 + yoe div 4 - yoe div 100 + doy
      in era * 146097 + doe - 719468)"

text \<open>The English locale, moment's default.\<close>

definition en_months :: "nat \<Rightarrow> string" where
  "en_months i =
     [''January'', ''February'', ''March'', ''April'', ''May'', ''June'', ''July'',
      ''August'', ''September'', ''October'', ''November'', ''December''] ! i"

definition en_ordinal :: "nat \<Rightarrow> string" where
  "en_ordinal n =
     (let b = n mod 10 in
      show_nat n @
        (if (n mod 100) div 10 = 1 then ''th''
         else if b = 1 then ''st''
         else if b = 2 then ''nd''
         else if b = 3 then ''rd''
         else ''th''))"

definition locale_en :: Locale where
  "locale_en = \<lparr> months = en_months, ordinal = en_ordinal, week_dow = 0 \<rparr>"

text \<open>The Dutch locale of the library: other month names, another ordinal, weeks from Monday.\<close>

definition nl_months :: "nat \<Rightarrow> string" where
  "nl_months i =
     [''januari'', ''februari'', ''maart'', ''april'', ''mei'', ''juni'', ''juli'',
      ''augustus'', ''september'', ''oktober'', ''november'', ''december''] ! i"

definition nl_ordinal :: "nat \<Rightarrow> string" where
  "nl_ordinal n = show_nat n @ (if n = 1 \<or> n = 8 \<or> n \<ge> 20 then ''ste'' else ''de'')"

definition locale_nl :: Locale where
  "locale_nl = \<lparr> months = nl_months, ordinal = nl_ordinal, week_dow = 1 \<rparr>"

text \<open>\<open>moment('YYYY-MM-DD')\<close> under a given global locale: local midnight of that day.\<close>

definition moment_of :: "Locale \<Rightarrow> int \<Rightarrow> nat \<Rightarrow> nat \<Rightarrow> Moment" where
  "moment_of l y m d = \<lparr> day_number = days_from_civil y m d, ms_of_day = 0, loc = l \<rparr>"

text \<open>\<open>day()\<close>: 0 = Sunday .. 6 = Saturday, whatever the locale.\<close>

definition day :: "Moment \<Rightarrow> int" where
  "day m = (day_number m + 4) mod 7"

text \<open>\<open>weekday()\<close>: the day of the week counted from the locale's first day. utils.ts
  does not call it; it is here for comparison only.\<close>

definition weekday :: "Moment \<Rightarrow> int" where
  "weekday m = (day m + 7 - week_dow (loc m)) mod 7"

definition clone :: "Moment \<Rightarrow> Moment" where
  "clone m = m"

text \<open>\<open>subtract(n, 'days')\<close> moves the calendar day and keeps the local time of day.\<close>

definition subtract_days :: "int \<Rightarrow> Moment \<Rightarrow> Moment" where
  "subtract_days n m = m \<lparr> day_number := day_number m - n \<rparr>"

text \<open>\<open>format('MMMM Do')\<close>: the month name, a space, the day of the month with its ordinal,
  both rendered by the moment's locale.\<close>

definition format_MMMM_Do :: "Moment \<Rightarrow> string" where
  "format_MMMM_Do m =
     (case civil_from_days (day_number m) of
        (y, mo, d) \<Rightarrow> months (loc m) (mo - 1) @ '' '' @ ordinal (loc m) d)"

text \<open>Two moments are ordered as instants of local time.\<close>

definition is_same_or_before :: "Moment \<Rightarrow> Moment \<Rightarrow> bool" where
  "is_same_or_before a b \<longleftrightarrow>
     day_number a < day_number b \<or> (day_number a = day_number b \<and> ms_of_day a \<le> ms_of_day b)"

subsection \<open>utils.ts\<close>

text \<open>JavaScript's \<open>%\<close> truncates towards zero: the result has the sign of the dividend.
  That is \<open>smod\<close>.\<close>

definition js_rem :: "int \<Rightarrow> int \<Rightarrow> int" where
  "js_rem a b = a smod b"

definition GetWeekDateFromMoment :: "Moment \<Rightarrow> int \<Rightarrow> string" where
  "GetWeekDateFromMoment date startOfWeek =
     (let dayOfWeek = day date;
          daysFromStart = js_rem (dayOfWeek - startOfWeek + 7) 7
      in format_MMMM_Do (subtract_days daysFromStart (clone date)))"

definition getWeekStartMoment :: "Moment \<Rightarrow> int \<Rightarrow> Moment" where
  "getWeekStartMoment date startOfWeek =
     (let dayOfWeek = day date;
          daysFromStart = js_rem (dayOfWeek - startOfWeek + 7) 7
      in subtract_days daysFromStart (clone date))"

text \<open>\<open>GetCurrentWeek\<close> reads the clock: \<open>moment()\<close> is the argument \<open>today\<close>.\<close>

definition GetCurrentWeek :: "Moment \<Rightarrow> int \<Rightarrow> string" where
  "GetCurrentWeek today startOfWeek =
     (let dayOfWeek = day today;
          daysFromStart = js_rem (dayOfWeek - startOfWeek + 7) 7
      in format_MMMM_Do (subtract_days daysFromStart (clone today)))"

subsection \<open>Ignore-list validation (utils.ts)\<close>

text \<open>A call either returns a value or throws an Error with a message.\<close>

datatype 'a outcome = Throws string | Returns 'a

datatype ('a, 'e) Result = Ok 'a | Err 'e

text \<open>The enum of settings.ts, as utils.ts and its tests name its members.\<close>

datatype ShoppingListIgnoreBehaviour = Exact | Partial | Wildcard | Regex

datatype BehaviourValidationError = BehaviourValidationError (message: string)

text \<open>
  A compiled regular expression is kept as its source. The engine's syntax check is the
  parameter \<open>syntax_error\<close>: \<open>Some msg\<close> when \<open>new RegExp(p)\<close> throws a SyntaxError with
  message \<open>msg\<close>, \<open>None\<close> when the pattern compiles. \<open>new RegExp(r)\<close> of a compiled
  expression copies it and does not throw.
\<close>

datatype RegExp = RegExp (source: string)

definition new_RegExp :: "(string \<Rightarrow> string option) \<Rightarrow> string \<Rightarrow> RegExp outcome" where
  "new_RegExp syntax_error p =
     (case syntax_error p of Some msg \<Rightarrow> Throws msg | None \<Rightarrow> Returns (RegExp p))"

definition new_RegExp_from :: "RegExp \<Rightarrow> RegExp outcome" where
  "new_RegExp_from r = Returns r"

text \<open>The two \<open>replace\<close> calls of \<open>wildcardToRegex\<close>: a backslash (character 0x5C) is put
  before each of the characters - / ^ $ + ? . ( ) | [ ] { } and the backslash itself, then
  each * becomes \<open>.*\<close>.\<close>

definition regex_special :: "char \<Rightarrow> bool" where
  "regex_special c \<longleftrightarrow> c \<in> set (''-/'' @ [CHR 0x5C] @ ''^$+?.()|[]{}'')"

definition escape_special :: "string \<Rightarrow> string" where
  "escape_special s = concat (map (\<lambda>c. if regex_special c then [CHR 0x5C, c] else [c]) s)"

definition star_to_dotstar :: "string \<Rightarrow> string" where
  "star_to_dotstar s = concat (map (\<lambda>c. if c = CHR ''*'' then ''.*'' else [c]) s)"

definition wildcardToRegex :: "(string \<Rightarrow> string option) \<Rightarrow> string \<Rightarrow> RegExp outcome" where
  "wildcardToRegex syntax_error pattern =
     (let escaped = star_to_dotstar (escape_special pattern)
      in new_RegExp syntax_error (''^'' @ escaped @ ''$''))"

text \<open>The body of the \<open>try\<close> block, for one item.\<close>

definition compile_item ::
  "(string \<Rightarrow> string option) \<Rightarrow> ShoppingListIgnoreBehaviour \<Rightarrow> string \<Rightarrow> RegExp outcome" where
  "compile_item syntax_error behaviour item =
     (if behaviour = Wildcard then
        (case wildcardToRegex syntax_error item of
           Throws e \<Rightarrow> Throws e
         | Returns r \<Rightarrow> new_RegExp_from r)
      else new_RegExp syntax_error item)"

definition invalid_message :: "string \<Rightarrow> string" where
  "invalid_message e = ''Shopping list'' @ [CHR 0x27] @ ''s ignore items are invalid: '' @ e @ ''.''"

text \<open>The \<open>for\<close> loop with its \<open>try\<close>/\<open>catch\<close>: a throw of the body is caught and returned
  as \<open>Err\<close>.\<close>

fun validate_items ::
  "(string \<Rightarrow> string option) \<Rightarrow> ShoppingListIgnoreBehaviour \<Rightarrow> string list
     \<Rightarrow> (bool, BehaviourValidationError) Result outcome" where
  "validate_items syntax_error behaviour [] = Returns (Ok True)"
| "validate_items syntax_error behaviour (item # rest) =
     (case compile_item syntax_error behaviour item of
        Throws e \<Rightarrow> Returns (Err (BehaviourValidationError (invalid_message e)))
      | Returns r \<Rightarrow> validate_items syntax_error behaviour rest)"

definition validateIgnoreBehaviour ::
  "(string \<Rightarrow> string option) \<Rightarrow> string list \<Rightarrow> ShoppingListIgnoreBehaviour
     \<Rightarrow> (bool, BehaviourValidationError) Result outcome" where
  "validateIgnoreBehaviour syntax_error ignoreList behaviour =
     (if behaviour = Exact \<or> behaviour = Partial then Returns (Ok True)
      else validate_items syntax_error behaviour ignoreList)"

text \<open>A syntax check for the examples: it rejects an unterminated character class, with
  the message the tests of utils.ts expect.\<close>

fun unterminated_class :: "bool \<Rightarrow> string \<Rightarrow> bool" where
  "unterminated_class inside [] = inside"
| "unterminated_class inside (c # cs) =
     (if c = CHR 0x5C then unterminated_class inside (tl cs)
      else if \<not> inside \<and> c = CHR ''['' then unterminated_class True cs
      else if inside \<and> c = CHR '']'' then unterminated_class False cs
      else unterminated_class inside cs)"

definition class_syntax_error :: "string \<Rightarrow> string option" where
  "class_syntax_error p =
     (if unterminated_class False p
      then Some (''Invalid regular expression: /'' @ p @ ''/: Unterminated character class'')
      else None)"

section \<open>The meal-plan document engine (meal_plan/plan.ts)\<close>

text \<open>
  Modelled from the spec: meal_plan/plan.ts is not among the sources, only its tests are
  (the test file imports \<open>addRecipeToTable\<close>, \<open>detectMealPlanFormat\<close> and
  \<open>RemoveRecipeFromMealPlan\<close> from it). The definitions of this section follow sections 3,
  4.2, 4.4 and 4.5 of the spec; the row rendering and the break marker \<open><br>\<close> are the
  ones the tests expect.
\<close>

subsection \<open>Text helpers\<close>

text \<open>Modelled from the spec: whitespace trimming, as "trimmed" is used for contents and
  cells (plan.ts is missing). Strings are byte lists, whitespace is ASCII whitespace.\<close>

definition is_space :: "char \<Rightarrow> bool" where
  "is_space c \<longleftrightarrow> c \<in> set [CHR '' '', CHR 0x09, CHR 0x0A, CHR 0x0B, CHR 0x0C, CHR 0x0D]"

definition trim :: "string \<Rightarrow> string" where
  "trim s = rev (dropWhile is_space (rev (dropWhile is_space s)))"

text \<open>Modelled from the spec: splitting a text at a separator character and joining the
  pieces again, for lines and for the cells of a pipe-delimited row (plan.ts is missing).\<close>

fun split_on :: "char \<Rightarrow> string \<Rightarrow> string list" where
  "split_on c [] = [[]]"
| "split_on c (x # xs) =
     (if x = c then [] # split_on c xs
      else (case split_on c xs of [] \<Rightarrow> [[x]] | p # ps \<Rightarrow> (x # p) # ps))"

fun join_with :: "string \<Rightarrow> string list \<Rightarrow> string" where
  "join_with sep [] = []"
| "join_with sep [x] = x"
| "join_with sep (x # y # ys) = x @ sep @ join_with sep (y # ys)"

definition lines_of :: "string \<Rightarrow> string list" where
  "lines_of content = split_on (CHR 0x0A) content"

definition unlines :: "string list \<Rightarrow> string" where
  "unlines ls = join_with [CHR 0x0A] ls"

definition to_lower :: "char \<Rightarrow> char" where
  "to_lower c =
     (if 65 \<le> (of_char c :: nat) \<and> (of_char c :: nat) \<le> 90 then char_of (of_char c + 32 :: nat)
      else c)"

fun find_index :: "('a \<Rightarrow> bool) \<Rightarrow> 'a list \<Rightarrow> nat option" where
  "find_index P [] = None"
| "find_index P (x # xs) = (if P x then Some 0 else map_option Suc (find_index P xs))"

subsection \<open>Rows of the table layout\<close>

text \<open>Modelled from the spec: a pipe-delimited row and its trimmed cells (section 4.4;
  plan.ts is missing). A row starts and ends with a pipe once trimmed; its cells are the
  pieces between the pipes.\<close>

definition is_pipe_row :: "string \<Rightarrow> bool" where
  "is_pipe_row line \<longleftrightarrow>
     (let t = trim line in 2 \<le> length t \<and> hd t = CHR ''|'' \<and> last t = CHR ''|'')"

definition row_cells :: "string \<Rightarrow> string list" where
  "row_cells line = map trim (butlast (tl (split_on (CHR ''|'') (trim line))))"

definition first_cell :: "string \<Rightarrow> string" where
  "first_cell line = (case row_cells line of [] \<Rightarrow> [] | c # cs \<Rightarrow> c)"

text \<open>Modelled from the spec: the separator row, "every cell (after trimming) consists
  only of dash characters (length at least 1)", and the placeholder row, "every cell is
  blank" (section 4.4; plan.ts is missing).\<close>

definition is_separator_row :: "string \<Rightarrow> bool" where
  "is_separator_row line \<longleftrightarrow>
     is_pipe_row line \<and> row_cells line \<noteq> []
     \<and> list_all (\<lambda>c. c \<noteq> [] \<and> list_all (\<lambda>x. x = CHR ''-'') c) (row_cells line)"

definition is_placeholder_row :: "string \<Rightarrow> bool" where
  "is_placeholder_row line \<longleftrightarrow> is_pipe_row line \<and> list_all (\<lambda>c. c = []) (row_cells line)"

definition is_data_row :: "string \<Rightarrow> bool" where
  "is_data_row line \<longleftrightarrow> is_pipe_row line \<and> \<not> is_placeholder_row line"

subsection \<open>Format detection\<close>

text \<open>Modelled from the spec: the enum \<open>Format\<close> of section 3, \<open>{List, Table}\<close>
  (settings.ts, which declares it, is missing).\<close>

datatype MealPlanFormat = List_format | Table_format

text \<open>Modelled from the spec: the two patterns of section 4.2 (plan.ts is missing). Table:
  "a line matching a pipe-delimited row whose first cell (trimmed, case-insensitive) is
  Week Start". List: "a line matching '# Week of ' at the start of a line".\<close>

definition is_week_start_row :: "string \<Rightarrow> bool" where
  "is_week_start_row line \<longleftrightarrow>
     is_pipe_row line \<and> row_cells line \<noteq> [] \<and> map to_lower (first_cell line) = ''week start''"

definition matches_table_pattern :: "string \<Rightarrow> bool" where
  "matches_table_pattern content \<longleftrightarrow> list_ex is_week_start_row (lines_of content)"

definition matches_list_pattern :: "string \<Rightarrow> bool" where
  "matches_list_pattern content \<longleftrightarrow> list_ex (prefix ''# Week of '') (lines_of content)"

text \<open>Modelled from the spec: \<open>DetectFormat\<close> of section 4.2, which the tests call
  \<open>detectMealPlanFormat\<close> (plan.ts is missing): "Trims leading/trailing whitespace first
  ... Returns None if content is empty/whitespace-only or matches neither pattern."\<close>

definition detectMealPlanFormat :: "string \<Rightarrow> MealPlanFormat option" where
  "detectMealPlanFormat content =
     (let trimmed = trim content in
      if trimmed = [] then None
      else if matches_table_pattern trimmed then Some Table_format
      else if matches_list_pattern trimmed then Some List_format
      else None)"

subsection \<open>The table codec\<close>

text \<open>Modelled from the spec: header and separator detection of section 4.4 (plan.ts is
  missing): "the header row is the first pipe-delimited row; the separator row is the next
  row ... Both are located by scanning from the top and must be adjacent".\<close>

definition header_index :: "string list \<Rightarrow> nat option" where
  "header_index ls = find_index is_pipe_row ls"

definition separator_index :: "string list \<Rightarrow> nat option" where
  "separator_index ls =
     (case header_index ls of
        None \<Rightarrow> None
      | Some h \<Rightarrow> if Suc h < length ls \<and> is_separator_row (ls ! Suc h) then Some (Suc h) else None)"

text \<open>Modelled from the spec: data-row classification of section 4.4 (plan.ts is
  missing): "subsequent rows are data rows unless every cell is blank".\<close>

definition data_row_indices :: "string list \<Rightarrow> nat list" where
  "data_row_indices ls =
     (case separator_index ls of
        None \<Rightarrow> []
      | Some s \<Rightarrow> filter (\<lambda>i. is_data_row (ls ! i)) [Suc s ..< length ls])"

text \<open>Modelled from the spec: "locates the data row whose first cell, trimmed, equals
  weekLabel" and "Column index is resolved from the header row's day names" (section 4.4;
  plan.ts is missing).\<close>

definition find_week_row :: "string list \<Rightarrow> string \<Rightarrow> nat option" where
  "find_week_row ls weekLabel =
     List.find (\<lambda>i. first_cell (ls ! i) = weekLabel) (data_row_indices ls)"

definition column_index :: "string list \<Rightarrow> string \<Rightarrow> nat option" where
  "column_index ls dayName =
     (case header_index ls of
        None \<Rightarrow> None
      | Some h \<Rightarrow> find_index (\<lambda>c. c = dayName) (row_cells (ls ! h)))"

text \<open>Modelled from the spec: a row is written back as its cells between pipes, one
  space on each side, the rendering the tests of \<open>addRecipeToTable\<close> expect (plan.ts is
  missing).\<close>

definition render_row :: "string list \<Rightarrow> string" where
  "render_row cells = ''| '' @ join_with '' | '' cells @ '' |''"

text \<open>Modelled from the spec: a recipe entry is "rendered as a double-bracket link"
  (section 3), and the line-break marker that joins the entries of a cell is \<open><br>\<close>, as
  in the example of section 8 (plan.ts is missing).\<close>

definition recipe_link :: "string \<Rightarrow> string" where
  "recipe_link recipeName = ''[['' @ recipeName @ '']]''"

definition br :: string where
  "br = ''<br>''"

text \<open>Modelled from the spec: editing one cell of one row; every other line of the
  document is kept as it is (plan.ts is missing). A week or a day that is not in the table
  leaves the content unchanged.\<close>

definition update_cell ::
  "(string \<Rightarrow> string) \<Rightarrow> string \<Rightarrow> string \<Rightarrow> string \<Rightarrow> string" where
  "update_cell f content weekLabel dayName =
     (let ls = lines_of content in
      case find_week_row ls weekLabel of
        None \<Rightarrow> content
      | Some i \<Rightarrow>
          (case column_index ls dayName of
             None \<Rightarrow> content
           | Some col \<Rightarrow>
               (let cells = row_cells (ls ! i) in
                if col < length cells
                then unlines (ls [i := render_row (cells [col := f (cells ! col)])])
                else content)))"

text \<open>Modelled from the spec: \<open>addRecipeToTable\<close> of section 4.4 (plan.ts is missing): "if
  absent, returns the content unchanged ... On match, appends [[recipeName]] to the target
  day's column, joined to existing content with the line-break marker; blank cells become
  a single-entry cell."\<close>

definition add_to_cell :: "string \<Rightarrow> string \<Rightarrow> string" where
  "add_to_cell recipeName cell =
     (if cell = [] then recipe_link recipeName else cell @ br @ recipe_link recipeName)"

definition addRecipeToTable :: "string \<Rightarrow> string \<Rightarrow> string \<Rightarrow> string \<Rightarrow> string" where
  "addRecipeToTable content weekLabel dayName recipeName =
     update_cell (add_to_cell recipeName) content weekLabel dayName"

subsection \<open>Removing an entry\<close>

text \<open>Modelled from the spec: the entries of a cell, "zero or more entries joined by a
  line-break marker" (section 3; plan.ts is missing). A blank cell has no entry; otherwise
  the entries are the pieces between the markers.\<close>

function split_br :: "string \<Rightarrow> string list" where
  "split_br [] = [[]]"
| "split_br (c # cs) =
     (if prefix br (c # cs) then [] # split_br (drop (length br) (c # cs))
      else (case split_br cs of [] \<Rightarrow> [[c]] | p # ps \<Rightarrow> (c # p) # ps))"
  by pat_completeness auto
termination
  by (relation "measure length") (auto simp add: br_def)

definition cell_entries :: "string \<Rightarrow> string list" where
  "cell_entries cell = (if cell = [] then [] else split_br cell)"

definition join_entries :: "string list \<Rightarrow> string" where
  "join_entries es = join_with br es"

text \<open>Modelled from the spec: removal within a cell (sections 4.4 and 4.5; plan.ts is
  missing): "removes the first entry whose name equals recipeName", the recipe entry
  being "rendered as a double-bracket link", and the remaining entries are joined again
  with the marker.\<close>

definition remove_from_cell :: "string \<Rightarrow> string \<Rightarrow> string" where
  "remove_from_cell recipeName cell =
     join_entries (remove1 (recipe_link recipeName) (cell_entries cell))"

definition removeRecipeFromTable :: "string \<Rightarrow> string \<Rightarrow> string \<Rightarrow> string \<Rightarrow> string" where
  "removeRecipeFromTable content weekLabel dayName recipeName =
     update_cell (remove_from_cell recipeName) content weekLabel dayName"

text \<open>Modelled from the spec: the day names of constants.ts, which is missing; the tests
  rotate \<open>DAYS_OF_WEEK\<close> by the start of the week and get Monday first for 1.\<close>

definition DAYS_OF_WEEK :: "string list" where
  "DAYS_OF_WEEK =
     [''Sunday'', ''Monday'', ''Tuesday'', ''Wednesday'', ''Thursday'', ''Friday'', ''Saturday'']"

text \<open>Modelled from the spec: what the mutation operations read and write of the context
  (context.ts is missing): the configured start of the week and the text of the meal-plan
  note in the vault (section 6).\<close>

record Context =
  startOfWeek :: int
  mealPlanNote :: string

text \<open>Modelled from the spec: \<open>RemoveRecipeFromMealPlan\<close> of section 4.5 (plan.ts is
  missing): it "resolves the week label for date, locates that week only ... and removes
  the first entry whose name equals recipeName, for the day inferred from date's
  day-of-week", as one read-modify-write of the note. An unrecognized document is left as
  it is (section 7). The list-layout codec is the parameter \<open>removeRecipeFromList\<close>.\<close>

definition RemoveRecipeFromMealPlan ::
  "(string \<Rightarrow> string \<Rightarrow> string \<Rightarrow> string \<Rightarrow> string) \<Rightarrow> Context \<Rightarrow> string \<Rightarrow> Moment \<Rightarrow> Context" where
  "RemoveRecipeFromMealPlan removeRecipeFromList ctx recipeName date =
     (let weekLabel = GetWeekDateFromMoment date (startOfWeek ctx);
          dayName = DAYS_OF_WEEK ! nat (day date);
          content = mealPlanNote ctx
      in ctx \<lparr> mealPlanNote :=
           (case detectMealPlanFormat content of
              None \<Rightarrow> content
            | Some Table_format \<Rightarrow> removeRecipeFromTable content weekLabel dayName recipeName
            | Some List_format \<Rightarrow> removeRecipeFromList content weekLabel dayName recipeName) \<rparr>)"

subsection \<open>Cells of a document\<close>

text \<open>Modelled from the spec: the cell of a table document in the row on line \<open>i\<close> and
  the column \<open>col\<close>, read with the row tokenizer above (plan.ts is missing).\<close>

definition cell_at :: "string \<Rightarrow> nat \<Rightarrow> nat \<Rightarrow> string" where
  "cell_at content i col = row_cells (lines_of content ! i) ! col"

text \<open>Modelled from the spec: an entry of a cell (section 3; plan.ts is missing): not
  empty, free of the line-break marker that separates entries, and without surrounding
  whitespace, which the trimming of cells would not keep.\<close>

definition cell_entry :: "string \<Rightarrow> bool" where
  "cell_entry e \<longleftrightarrow> e \<noteq> [] \<and> \<not> sublist br e \<and> \<not> is_space (hd e) \<and> \<not> is_space (last e)"

text \<open>A text without surrounding whitespace, and a cell as \<open>render_row\<close> writes it, with
  one space on each side.\<close>

definition trimmed :: "string \<Rightarrow> bool" where
  "trimmed s \<longleftrightarrow> s = [] \<or> (\<not> is_space (hd s) \<and> \<not> is_space (last s))"

definition pad :: "string \<Rightarrow> string" where
  "pad c = CHR '' '' # c @ '' ''"

subsection \<open>Example documents\<close>

text \<open>Documents of the tests of plan.ts: one without meal-plan structure, a list and a
  table with a leading blank line, a table with a placeholder row, and a table with one
  week whose Monday cell is given.\<close>

definition doc_other :: string where
  "doc_other =
     ''# Some other heading'' @ [CHR 0x0A] @ ''This is just random content.'' @ [CHR 0x0A]"

definition doc_list :: string where
  "doc_list = [CHR 0x0A] @ ''# Week of January 8th'' @ [CHR 0x0A] @ ''## Sunday'' @ [CHR 0x0A]"

definition doc_table :: string where
  "doc_table =
     [CHR 0x0A] @ ''| Week Start  | Sunday | Monday |'' @ [CHR 0x0A] @ ''|---|---|---|''
     @ [CHR 0x0A] @ ''| January 8th |  |  |'' @ [CHR 0x0A]"

definition table_head :: string where
  "table_head =
     ''| Week Start | Sunday | Monday | Tuesday | Wednesday | Thursday | Friday | Saturday |''
     @ [CHR 0x0A] @ ''|---|---|---|---|---|---|---|---|'' @ [CHR 0x0A]"

definition table_jan8 :: string where
  "table_jan8 =
     table_head @ ''| | | | | | | | |'' @ [CHR 0x0A]
     @ ''| January 8th | | | | | | | |'' @ [CHR 0x0A]"

definition table_jan7 :: "string \<Rightarrow> string" where
  "table_jan7 cell =
     table_head @ ''| January 7th |  | '' @ cell @ '' |  |  |  |  |  |'' @ [CHR 0x0A]"

definition ctx_three :: Context where
  "ctx_three =
     \<lparr> startOfWeek = 0,
       mealPlanNote = table_jan7 ''[[Recipe 1]]<br>[[Recipe 2]]<br>[[Recipe 3]]'' \<rparr>"

section \<open>Properties of the week arithmetic\<close>

lemma day_range: "0 \<le> day m \<and> day m \<le> 6"
  by (simp add: day_def)

lemma js_rem_nonneg: "0 \<le> a \<Longrightarrow> js_rem a 7 = a mod 7"
  by (cases "a = 0") (auto simp add: js_rem_def signed_modulo_int_def)

lemma daysFromStart_eq:
  assumes "0 \<le> s" "s \<le> 6"
  shows "js_rem (day m - s + 7) 7 = (day m - s + 7) mod 7"
proof -
  have "0 \<le> day m - s + 7" using day_range [of m] assms by linarith
  then show ?thesis by (rule js_rem_nonneg)
qed

lemma weekstart_day_number:
  assumes "0 \<le> s" "s \<le> 6"
  shows "day_number (getWeekStartMoment d s) = day_number d - (day d - s + 7) mod 7"
  by (simp add: getWeekStartMoment_def Let_def clone_def subtract_days_def
      daysFromStart_eq [OF assms])

lemma weekstart_fields:
  "ms_of_day (getWeekStartMoment d s) = ms_of_day d \<and> loc (getWeekStartMoment d s) = loc d"
  by (simp add: getWeekStartMoment_def Let_def clone_def subtract_days_def)

lemma label_is_formatted_weekstart:
  "GetWeekDateFromMoment d s = format_MMMM_Do (getWeekStartMoment d s)"
  by (simp add: GetWeekDateFromMoment_def getWeekStartMoment_def)

lemma ws_mod:
  fixes n s :: int
  assumes "0 \<le> s" "s \<le> 6"
  shows "(n - ((n + 4) mod 7 - s + 7) mod 7 + 4) mod 7 = s"
proof -
  have "(n - ((n + 4) mod 7 - s + 7) mod 7 + 4) mod 7
        = (n + 4 - ((n + 4) mod 7 - s + 7) mod 7) mod 7"
    by (simp add: algebra_simps)
  also have "\<dots> = (n + 4 - ((n + 4) mod 7 - s + 7)) mod 7"
    by (rule mod_diff_right_eq)
  also have "\<dots> = ((n + 4 - (n + 4) mod 7) + (s - 7)) mod 7"
    by (simp add: algebra_simps)
  also have "\<dots> = (7 * ((n + 4) div 7) + (s - 7)) mod 7"
    by (simp add: minus_mod_eq_mult_div)
  also have "\<dots> = (s - 7) mod 7"
    by (simp only: mod_mult_self4)
  also have "\<dots> = s mod 7" by simp
  also have "\<dots> = s" using assms by simp
  finally show ?thesis .
qed

lemma member_mod:
  fixes w e s :: int
  assumes "0 \<le> s" "s \<le> 6" "(w + 4) mod 7 = s" "w \<le> e" "e \<le> w + 6"
  shows "e - ((e + 4) mod 7 - s + 7) mod 7 = w"
proof -
  define k where "k = e - w"
  have k: "0 \<le> k" "k \<le> 6" and e: "e = w + k" using assms by (simp_all add: k_def)
  have w4: "w + 4 = 7 * ((w + 4) div 7) + s"
    using assms(3) mult_div_mod_eq [of 7 "w + 4"] by simp
  have "((e + 4) mod 7 - s + 7) mod 7 = ((e + 4) mod 7 + (7 - s)) mod 7"
    by (simp add: algebra_simps)
  also have "\<dots> = (e + 4 + (7 - s)) mod 7"
    by (rule mod_add_left_eq)
  also have "\<dots> = ((w + 4) + (k + 7 - s)) mod 7"
    by (simp add: e algebra_simps)
  also have "\<dots> = (7 * ((w + 4) div 7) + s + (k + 7 - s)) mod 7"
    using w4 by simp
  also have "\<dots> = (7 * ((w + 4) div 7 + 1) + k) mod 7"
    by (simp add: algebra_simps)
  also have "\<dots> = k mod 7"
    by (simp only: mod_mult_self4)
  also have "\<dots> = k" using k by simp
  finally show ?thesis by (simp add: e)
qed

lemma weekstart_day:
  assumes "0 \<le> s" "s \<le> 6"
  shows "day (getWeekStartMoment d s) = s"
  unfolding day_def [of "getWeekStartMoment d s"] weekstart_day_number [OF assms] day_def
  by (rule ws_mod [OF assms])

lemma weekstart_of_week_member:
  assumes "0 \<le> s" "s \<le> 6"
    and "day_number (getWeekStartMoment d s) \<le> day_number e"
    and "day_number e \<le> day_number (getWeekStartMoment d s) + 6"
  shows "day_number (getWeekStartMoment e s) = day_number (getWeekStartMoment d s)"
proof -
  have ws: "(day_number (getWeekStartMoment d s) + 4) mod 7 = s"
    using weekstart_day [OF assms(1,2), of d] by (simp add: day_def)
  show ?thesis
    unfolding weekstart_day_number [OF assms(1,2), of e] day_def
    by (rule member_mod [OF assms(1,2) ws assms(3,4)])
qed

lemma weekstart_offset_range:
  "0 \<le> (day d - s + 7) mod 7 \<and> (day d - s + 7) mod 7 \<le> 6"
  by simp

text \<open>\<open>GetCurrentWeek\<close> is \<open>GetWeekDateFromMoment\<close> at the current date.\<close>

lemma GetCurrentWeek_eq: "GetCurrentWeek today s = GetWeekDateFromMoment today s"
  by (simp add: GetCurrentWeek_def GetWeekDateFromMoment_def)

text \<open>The numbering of \<open>day()\<close>: 2026-01-25 is a Sunday, 2026-01-31 a Saturday. For
  comparison, \<open>weekday()\<close> of the same Sunday is 0 for an English moment and 6 for a Dutch
  one.\<close>

lemma day_convention:
  "day (moment_of l 2026 1 25) = 0" "day (moment_of l 2026 1 26) = 1"
  "day (moment_of l 2026 1 31) = 6"
  by (simp_all add: day_def moment_of_def days_from_civil_def)

lemma weekday_depends_on_locale:
  "weekday (moment_of locale_en 2026 1 25) = 0" "weekday (moment_of locale_nl 2026 1 25) = 6"
  by code_simp+

subsection \<open>The week label\<close>

text \<open>
  Claim C2. For every date \<open>d\<close> and every \<open>startOfWeek\<close> in 0..6,
  \<open>GetWeekDateFromMoment d startOfWeek\<close> is the date \<open>d\<close> minus
  \<open>(dayOfWeek d - startOfWeek + 7) mod 7\<close> days, rendered as the month name, a space and
  the day of the month with its ordinal, without a year; and for Sunday 2026-01-25 with
  weeks starting on Monday the label is "January 19th".
\<close>

theorem GetWeekDateFromMoment_label:
  assumes "0 \<le> s" "s \<le> 6"
  shows "GetWeekDateFromMoment d s =
           (case civil_from_days (day_number d - (day d - s + 7) mod 7) of
              (y, mo, dd) \<Rightarrow> months (loc d) (mo - 1) @ '' '' @ ordinal (loc d) dd)
         \<and> GetWeekDateFromMoment (moment_of locale_en 2026 1 25) 1 = ''January 19th''"
proof
  show "GetWeekDateFromMoment d s =
           (case civil_from_days (day_number d - (day d - s + 7) mod 7) of
              (y, mo, dd) \<Rightarrow> months (loc d) (mo - 1) @ '' '' @ ordinal (loc d) dd)"
    by (simp only: label_is_formatted_weekstart format_MMMM_Do_def
        weekstart_day_number [OF assms] weekstart_fields)
  show "GetWeekDateFromMoment (moment_of locale_en 2026 1 25) 1 = ''January 19th''"
    by code_simp
qed

theorem GetWeekDateFromMoment_label_witness:
  "(0::int) \<le> 0 \<and> (0::int) \<le> 6
   \<and> GetWeekDateFromMoment (moment_of locale_en 2024 1 3) 0 = ''December 31st''"
proof -
  have h1: "(0::int) \<le> 0" and h2: "(0::int) \<le> 6" by simp_all
  have e: "(case civil_from_days (day_number (moment_of locale_en 2024 1 3)
              - (day (moment_of locale_en 2024 1 3) - 0 + 7) mod 7) of
              (y, mo, dd) \<Rightarrow> months (loc (moment_of locale_en 2024 1 3)) (mo - 1) @ '' ''
                 @ ordinal (loc (moment_of locale_en 2024 1 3)) dd) = ''December 31st''"
    by code_simp
  have "GetWeekDateFromMoment (moment_of locale_en 2024 1 3) 0 = ''December 31st''"
    using conjunct1 [OF GetWeekDateFromMoment_label [OF h1 h2, of "moment_of locale_en 2024 1 3"]] e
    by (rule trans)
  with h1 h2 show ?thesis by blast
qed

text \<open>
  Claim C10. For every date \<open>d\<close> and every \<open>startOfWeek\<close> in 0..6, the week start
  \<open>w = getWeekStartMoment d startOfWeek\<close> falls on the day of the week \<open>startOfWeek\<close>, is
  not after \<open>d\<close>, is at most 6 days before \<open>d\<close>, and \<open>GetWeekDateFromMoment d startOfWeek\<close>
  is \<open>w\<close> formatted as "MMMM Do"; hence each of the seven dates \<open>w .. w + 6\<close> gets the
  same label.
\<close>

theorem week_start_invariant:
  assumes "0 \<le> s" "s \<le> 6"
  shows "day (getWeekStartMoment d s) = s
       \<and> is_same_or_before (getWeekStartMoment d s) d
       \<and> 0 \<le> day_number d - day_number (getWeekStartMoment d s)
       \<and> day_number d - day_number (getWeekStartMoment d s) \<le> 6
       \<and> GetWeekDateFromMoment d s = format_MMMM_Do (getWeekStartMoment d s)
       \<and> (\<forall>e. loc e = loc d
              \<and> day_number (getWeekStartMoment d s) \<le> day_number e
              \<and> day_number e \<le> day_number (getWeekStartMoment d s) + 6
            \<longrightarrow> GetWeekDateFromMoment e s = GetWeekDateFromMoment d s)"
proof -
  have r: "0 \<le> (day d - s + 7) mod 7" "(day d - s + 7) mod 7 \<le> 6"
    using weekstart_offset_range [of d s] by simp_all
  have dn: "day_number (getWeekStartMoment d s) = day_number d - (day d - s + 7) mod 7"
    by (rule weekstart_day_number [OF assms])
  have a: "day (getWeekStartMoment d s) = s" by (rule weekstart_day [OF assms])
  have b: "is_same_or_before (getWeekStartMoment d s) d"
    using r dn weekstart_fields [of d s] by (auto simp add: is_same_or_before_def)
  have c: "0 \<le> day_number d - day_number (getWeekStartMoment d s)"
    "day_number d - day_number (getWeekStartMoment d s) \<le> 6"
    using r dn by simp_all
  have f: "GetWeekDateFromMoment e s = GetWeekDateFromMoment d s"
    if "loc e = loc d" "day_number (getWeekStartMoment d s) \<le> day_number e"
       "day_number e \<le> day_number (getWeekStartMoment d s) + 6" for e
  proof -
    have "day_number (getWeekStartMoment e s) = day_number (getWeekStartMoment d s)"
      by (rule weekstart_of_week_member [OF assms that(2,3)])
    moreover have "loc (getWeekStartMoment e s) = loc (getWeekStartMoment d s)"
      using that(1) by (simp add: weekstart_fields)
    ultimately show ?thesis
      by (simp only: label_is_formatted_weekstart format_MMMM_Do_def)
  qed
  have g: "GetWeekDateFromMoment d s = format_MMMM_Do (getWeekStartMoment d s)"
    by (rule label_is_formatted_weekstart)
  from a b c g f show ?thesis by blast
qed

theorem week_start_invariant_witness:
  "(0::int) \<le> 1 \<and> (1::int) \<le> 6
   \<and> day (getWeekStartMoment (moment_of locale_en 2026 1 25) 1) = 1
   \<and> day_number (moment_of locale_en 2026 1 25)
       - day_number (getWeekStartMoment (moment_of locale_en 2026 1 25) 1) = 6
   \<and> GetWeekDateFromMoment (moment_of locale_en 2026 1 21) 1
       = GetWeekDateFromMoment (moment_of locale_en 2026 1 25) 1"
proof -
  have h1: "(0::int) \<le> 1" and h2: "(1::int) \<le> 6" by simp_all
  note t = week_start_invariant [OF h1 h2, of "moment_of locale_en 2026 1 25"]
  have l: "loc (moment_of locale_en 2026 1 21) = loc (moment_of locale_en 2026 1 25)"
    by (simp add: moment_of_def)
  have lo: "day_number (getWeekStartMoment (moment_of locale_en 2026 1 25) 1)
              \<le> day_number (moment_of locale_en 2026 1 21)"
    by code_simp
  have hi: "day_number (moment_of locale_en 2026 1 21)
              \<le> day_number (getWeekStartMoment (moment_of locale_en 2026 1 25) 1) + 6"
    by code_simp
  have six: "day_number (moment_of locale_en 2026 1 25)
       - day_number (getWeekStartMoment (moment_of locale_en 2026 1 25) 1) = 6"
    by code_simp
  from t l lo hi six h1 h2 show ?thesis by blast
qed

subsection \<open>Locales\<close>

text \<open>
  Claim C9, as stated: two runs of \<open>GetWeekDateFromMoment\<close> on the same date and start of
  week give the same output whatever the locale. The label is rendered by
  \<open>format('MMMM Do')\<close> with the month names and the ordinal of the moment's locale, so
  Sunday 2026-01-25 with weeks starting on Monday is "January 19th" for an English moment
  and "januari 19de" for a Dutch one.
\<close>

theorem week_label_locale_counterexample:
  "GetWeekDateFromMoment (moment_of locale_en 2026 1 25) 1
     \<noteq> GetWeekDateFromMoment (moment_of locale_nl 2026 1 25) 1"
  by code_simp

text \<open>
  Claim C9, amended. The week-start computation reads the numeric day of the week
  (0 = Sunday .. 6 = Saturday) and nothing of the locale: two moments on the same calendar
  day have the same day of the week and the same week-start day, whatever their locales
  (in particular whatever first day of the week the locales name); their labels are equal
  whenever the two locales render month names and ordinals alike.
\<close>

theorem week_start_locale_independent:
  assumes "day_number d1 = day_number d2"
  shows "day d1 = day d2
       \<and> day_number (getWeekStartMoment d1 s) = day_number (getWeekStartMoment d2 s)
       \<and> (months (loc d1) = months (loc d2) \<and> ordinal (loc d1) = ordinal (loc d2)
            \<longrightarrow> GetWeekDateFromMoment d1 s = GetWeekDateFromMoment d2 s)"
proof -
  have a: "day d1 = day d2" using assms by (simp only: day_def)
  have b: "day_number (getWeekStartMoment d1 s) = day_number (getWeekStartMoment d2 s)"
    using assms a by (simp add: getWeekStartMoment_def Let_def clone_def subtract_days_def)
  have c: "GetWeekDateFromMoment d1 s = GetWeekDateFromMoment d2 s"
    if "months (loc d1) = months (loc d2)" "ordinal (loc d1) = ordinal (loc d2)"
    using that b by (simp only: label_is_formatted_weekstart format_MMMM_Do_def weekstart_fields)
  from a b c show ?thesis by blast
qed

theorem week_start_locale_independent_witness:
  "day_number (moment_of locale_en 2026 1 25)
     = day_number (moment_of (locale_en \<lparr> week_dow := 1 \<rparr>) 2026 1 25)
   \<and> GetWeekDateFromMoment (moment_of locale_en 2026 1 25) 1
     = GetWeekDateFromMoment (moment_of (locale_en \<lparr> week_dow := 1 \<rparr>) 2026 1 25) 1
   \<and> day_number (getWeekStartMoment (moment_of locale_en 2026 1 25) 1)
     = day_number (getWeekStartMoment (moment_of locale_nl 2026 1 25) 1)"
proof -
  have h: "day_number (moment_of locale_en 2026 1 25)
     = day_number (moment_of (locale_en \<lparr> week_dow := 1 \<rparr>) 2026 1 25)"
    by (simp only: moment_of_def Moment.simps)
  have h': "day_number (moment_of locale_en 2026 1 25)
     = day_number (moment_of locale_nl 2026 1 25)"
    by (simp only: moment_of_def Moment.simps)
  have m: "months (loc (moment_of locale_en 2026 1 25))
     = months (loc (moment_of (locale_en \<lparr> week_dow := 1 \<rparr>) 2026 1 25))"
    by (simp add: moment_of_def)
  have p: "ordinal (loc (moment_of locale_en 2026 1 25))
     = ordinal (loc (moment_of (locale_en \<lparr> week_dow := 1 \<rparr>) 2026 1 25))"
    by (simp add: moment_of_def)
  from week_start_locale_independent [OF h, of 1] m p
    week_start_locale_independent [OF h', of 1] h
  show ?thesis by blast
qed

section \<open>Properties of the ignore-list validation\<close>

lemma validate_items_returns:
  "\<exists>r. validate_items se b xs = Returns r"
  by (induction xs) (auto split: outcome.splits)

lemma validate_items_all_ok:
  "\<forall>item \<in> set xs. \<exists>r. compile_item se b item = Returns r
     \<Longrightarrow> validate_items se b xs = Returns (Ok True)"
  by (induction xs) (auto split: outcome.splits)

lemma validate_items_first_failure:
  "\<forall>item \<in> set pre. \<exists>r. compile_item se b item = Returns r
     \<Longrightarrow> compile_item se b item = Throws e
     \<Longrightarrow> validate_items se b (pre @ item # post)
           = Returns (Err (BehaviourValidationError (invalid_message e)))"
  by (induction pre) (auto split: outcome.splits)

text \<open>
  Claim C8. For every ignore list and behaviour, \<open>validateIgnoreBehaviour\<close> returns and
  never throws; it returns \<open>Ok true\<close> when every pattern compiles, and always for the
  behaviours Exact and Partial; when a pattern fails to compile (the first such one,
  for the other behaviours) it returns \<open>Err\<close> of a \<open>BehaviourValidationError\<close> whose message
  is "Shopping list's ignore items are invalid: ", the message of the compilation error,
  and a full stop.
\<close>

theorem validateIgnoreBehaviour_never_throws:
  "(\<exists>r. validateIgnoreBehaviour se ignoreList behaviour = Returns r)
   \<and> (behaviour = Exact \<or> behaviour = Partial
        \<longrightarrow> validateIgnoreBehaviour se ignoreList behaviour = Returns (Ok True))
   \<and> ((\<forall>item \<in> set ignoreList. \<exists>r. compile_item se behaviour item = Returns r)
        \<longrightarrow> validateIgnoreBehaviour se ignoreList behaviour = Returns (Ok True))
   \<and> (\<forall>pre item post e.
        behaviour \<noteq> Exact \<and> behaviour \<noteq> Partial \<and> ignoreList = pre @ item # post
        \<and> (\<forall>p \<in> set pre. \<exists>r. compile_item se behaviour p = Returns r)
        \<and> compile_item se behaviour item = Throws e
        \<longrightarrow> validateIgnoreBehaviour se ignoreList behaviour
              = Returns (Err (BehaviourValidationError
                  (''Shopping list'' @ [CHR 0x27] @ ''s ignore items are invalid: '' @ e @ ''.''))))"
proof -
  have a: "\<exists>r. validateIgnoreBehaviour se ignoreList behaviour = Returns r"
    using validate_items_returns [of se behaviour ignoreList]
    by (simp add: validateIgnoreBehaviour_def)
  have b: "validateIgnoreBehaviour se ignoreList behaviour = Returns (Ok True)"
    if "behaviour = Exact \<or> behaviour = Partial"
    using that by (simp add: validateIgnoreBehaviour_def)
  have c: "validateIgnoreBehaviour se ignoreList behaviour = Returns (Ok True)"
    if "\<forall>item \<in> set ignoreList. \<exists>r. compile_item se behaviour item = Returns r"
    using validate_items_all_ok [OF that] by (simp add: validateIgnoreBehaviour_def)
  have d: "validateIgnoreBehaviour se ignoreList behaviour
              = Returns (Err (BehaviourValidationError
                  (''Shopping list'' @ [CHR 0x27] @ ''s ignore items are invalid: '' @ e @ ''.'')))"
    if "behaviour \<noteq> Exact" "behaviour \<noteq> Partial" "ignoreList = pre @ item # post"
       "\<forall>p \<in> set pre. \<exists>r. compile_item se behaviour p = Returns r"
       "compile_item se behaviour item = Throws e" for pre item post e
    using validate_items_first_failure [OF that(4,5), of post] that(1,2,3)
    by (simp add: validateIgnoreBehaviour_def invalid_message_def)
  from a b c d show ?thesis by blast
qed

theorem validateIgnoreBehaviour_never_throws_witness:
  "validateIgnoreBehaviour class_syntax_error [''salt['', ''pepper''] Exact = Returns (Ok True)
   \<and> compile_item class_syntax_error Regex ''salt.*'' = Returns (RegExp ''salt.*'')
   \<and> compile_item class_syntax_error Regex ''pepper'' = Returns (RegExp ''pepper'')
   \<and> validateIgnoreBehaviour class_syntax_error [''salt.*'', ''pepper''] Regex = Returns (Ok True)
   \<and> compile_item class_syntax_error Regex ''salt[''
        = Throws ''Invalid regular expression: /salt[/: Unterminated character class''
   \<and> validateIgnoreBehaviour class_syntax_error [''pepper'', ''salt['', ''x''] Regex
        = Returns (Err (BehaviourValidationError
            (''Shopping list'' @ [CHR 0x27] @ ''s ignore items are invalid: ''
              @ ''Invalid regular expression: /salt[/: Unterminated character class'' @ ''.'')))"
proof -
  have c1: "compile_item class_syntax_error Regex ''salt.*'' = Returns (RegExp ''salt.*'')"
    by code_simp
  have c2: "compile_item class_syntax_error Regex ''pepper'' = Returns (RegExp ''pepper'')"
    by code_simp
  have c3: "compile_item class_syntax_error Regex ''salt[''
        = Throws ''Invalid regular expression: /salt[/: Unterminated character class''"
    by code_simp
  have ok: "\<forall>item \<in> set [''salt.*'', ''pepper''].
              \<exists>r. compile_item class_syntax_error Regex item = Returns r"
    using c1 c2 by simp
  have pre: "\<forall>p \<in> set [''pepper'']. \<exists>r. compile_item class_syntax_error Regex p = Returns r"
    using c2 by simp
  have w1: "validateIgnoreBehaviour class_syntax_error [''salt['', ''pepper''] Exact
              = Returns (Ok True)"
    using validateIgnoreBehaviour_never_throws
            [of class_syntax_error "[''salt['', ''pepper'']" Exact]
    by blast
  have w2: "validateIgnoreBehaviour class_syntax_error [''salt.*'', ''pepper''] Regex
              = Returns (Ok True)"
    using validateIgnoreBehaviour_never_throws
            [of class_syntax_error "[''salt.*'', ''pepper'']" Regex] ok
    by blast
  have split: "[''pepper'', ''salt['', ''x''] = [''pepper''] @ ''salt['' # [''x'']"
    by simp
  have ne: "Regex \<noteq> Exact" "Regex \<noteq> Partial" by simp_all
  have w3: "validateIgnoreBehaviour class_syntax_error [''pepper'', ''salt['', ''x''] Regex
        = Returns (Err (BehaviourValidationError
            (''Shopping list'' @ [CHR 0x27] @ ''s ignore items are invalid: ''
              @ ''Invalid regular expression: /salt[/: Unterminated character class'' @ ''.'')))"
    using validateIgnoreBehaviour_never_throws
            [of class_syntax_error "[''pepper'', ''salt['', ''x'']" Regex] ne split pre c3
    by blast
  from c1 c2 c3 w1 w2 w3 show ?thesis by blast
qed

section \<open>Properties of the format detection\<close>

lemma trim_all_space: "list_all is_space s \<Longrightarrow> trim s = []"
proof -
  assume "list_all is_space s"
  then have d: "dropWhile is_space s = []" by (simp add: list_all_iff dropWhile_eq_Nil_conv)
  show ?thesis unfolding trim_def d by simp
qed

lemma lines_of_Nil: "lines_of [] = [[]]"
  by (simp add: lines_of_def)

lemma trim_Nil: "trim [] = []"
  by (simp add: trim_def)

lemma not_pipe_row_Nil: "\<not> is_pipe_row []"
  by (simp add: is_pipe_row_def trim_Nil)

lemma no_pattern_in_empty:
  "\<not> matches_table_pattern []" "\<not> matches_list_pattern []"
  by (simp_all add: matches_table_pattern_def matches_list_pattern_def lines_of_Nil
      is_week_start_row_def not_pipe_row_Nil)

text \<open>
  Claim C7. For every content that is empty or whitespace-only, or that (once trimmed, as
  the detection trims first) matches neither the Table pattern (a pipe-delimited row whose
  first cell, trimmed and case-insensitive, is "Week Start") nor the List pattern (a line
  starting with "# Week of "), \<open>detectMealPlanFormat\<close> returns \<open>None\<close>; otherwise it returns
  the Table format when the Table pattern matches and the List format when only the List
  pattern does.
\<close>

theorem detectMealPlanFormat_cases:
  "(list_all is_space content \<longrightarrow> detectMealPlanFormat content = None)
   \<and> (\<not> matches_table_pattern (trim content) \<and> \<not> matches_list_pattern (trim content)
        \<longrightarrow> detectMealPlanFormat content = None)
   \<and> (matches_table_pattern (trim content)
        \<longrightarrow> detectMealPlanFormat content = Some Table_format)
   \<and> (\<not> matches_table_pattern (trim content) \<and> matches_list_pattern (trim content)
        \<longrightarrow> detectMealPlanFormat content = Some List_format)"
proof -
  have a: "detectMealPlanFormat content = None" if "list_all is_space content"
    using trim_all_space [OF that] by (simp add: detectMealPlanFormat_def)
  have b: "detectMealPlanFormat content = None"
    if "\<not> matches_table_pattern (trim content)" "\<not> matches_list_pattern (trim content)"
    using that by (simp add: detectMealPlanFormat_def Let_def)
  have c: "detectMealPlanFormat content = Some Table_format"
    if "matches_table_pattern (trim content)"
  proof -
    have "trim content \<noteq> []" using that no_pattern_in_empty(1) by auto
    with that show ?thesis by (simp add: detectMealPlanFormat_def Let_def)
  qed
  have d: "detectMealPlanFormat content = Some List_format"
    if "\<not> matches_table_pattern (trim content)" "matches_list_pattern (trim content)"
  proof -
    have "trim content \<noteq> []" using that(2) no_pattern_in_empty(2) by auto
    with that show ?thesis by (simp add: detectMealPlanFormat_def Let_def)
  qed
  from a b c d show ?thesis by blast
qed

theorem detectMealPlanFormat_cases_witness:
  "list_all is_space ''   '' \<and> detectMealPlanFormat ''   '' = None
   \<and> detectMealPlanFormat '''' = None
   \<and> \<not> matches_table_pattern (trim doc_other) \<and> \<not> matches_list_pattern (trim doc_other)
   \<and> detectMealPlanFormat doc_other = None
   \<and> matches_table_pattern (trim doc_table) \<and> detectMealPlanFormat doc_table = Some Table_format
   \<and> \<not> matches_table_pattern (trim doc_list) \<and> matches_list_pattern (trim doc_list)
   \<and> detectMealPlanFormat doc_list = Some List_format"
proof -
  have s: "list_all is_space ''   ''" by code_simp
  have e: "list_all is_space ''''" by simp
  have o: "\<not> matches_table_pattern (trim doc_other)" "\<not> matches_list_pattern (trim doc_other)"
    by code_simp+
  have t: "matches_table_pattern (trim doc_table)" by code_simp
  have l: "\<not> matches_table_pattern (trim doc_list)" "matches_list_pattern (trim doc_list)"
    by code_simp+
  have w1: "detectMealPlanFormat ''   '' = None"
    using detectMealPlanFormat_cases [of "''   ''"] s by blast
  have w2: "detectMealPlanFormat '''' = None"
    using detectMealPlanFormat_cases [of "''''"] e by blast
  have w3: "detectMealPlanFormat doc_other = None"
    using detectMealPlanFormat_cases [of doc_other] o by blast
  have w4: "detectMealPlanFormat doc_table = Some Table_format"
    using detectMealPlanFormat_cases [of doc_table] t by blast
  have w5: "detectMealPlanFormat doc_list = Some List_format"
    using detectMealPlanFormat_cases [of doc_list] l by blast
  show ?thesis
    by (intro conjI) (rule s w1 w2 o w3 t w4 l w5)+
qed

section \<open>Properties of the table codec\<close>

text \<open>
  Claim C4. For every table content, week label, day and recipe name: if no data row's
  first cell (trimmed) equals the week label, \<open>addRecipeToTable\<close> returns the content
  unchanged.
\<close>

theorem addRecipeToTable_absent_week:
  assumes "\<forall>i \<in> set (data_row_indices (lines_of content)).
             first_cell (lines_of content ! i) \<noteq> weekLabel"
  shows "addRecipeToTable content weekLabel dayName recipeName = content"
proof -
  have "find_week_row (lines_of content) weekLabel = None"
    using assms by (simp add: find_week_row_def find_None_iff)
  then show ?thesis
    by (simp add: addRecipeToTable_def update_cell_def)
qed

theorem addRecipeToTable_absent_week_witness:
  "data_row_indices (lines_of table_jan8) = [3]
   \<and> first_cell (lines_of table_jan8 ! 3) = ''January 8th''
   \<and> addRecipeToTable table_jan8 ''February 1st'' ''Monday'' ''Test Recipe'' = table_jan8"
proof -
  have d: "data_row_indices (lines_of table_jan8) = [3]" by code_simp
  have f: "first_cell (lines_of table_jan8 ! 3) = ''January 8th''" by code_simp
  have "\<forall>i \<in> set (data_row_indices (lines_of table_jan8)).
          first_cell (lines_of table_jan8 ! i) \<noteq> ''February 1st''"
    unfolding d using f by simp
  from addRecipeToTable_absent_week [OF this] d f show ?thesis by (intro conjI)
qed

text \<open>The example of section 8 of the spec: a second recipe on the same day.\<close>

lemma addRecipeToTable_present_example:
  "addRecipeToTable
     (table_head @ ''| January 8th |  | [[Pasta Carbonara]] |  |  |  |  |  |'')
     ''January 8th'' ''Monday'' ''Chicken Tikka Masala''
   = table_head @ ''| January 8th |  | [[Pasta Carbonara]]<br>[[Chicken Tikka Masala]] |  |  |  |  |  |''"
  by code_simp

section \<open>Properties of the removal within a cell\<close>

lemma br_split_hd:
  assumes "us @ vs = br" "us \<noteq> []" "vs \<noteq> []"
  shows "hd vs \<noteq> CHR ''<''"
proof -
  from assms(1) have "us @ vs = [CHR ''<'', CHR ''b'', CHR ''r'', CHR ''>'']" by (simp add: br_def)
  with assms(2,3) show ?thesis
    by (auto simp add: append_eq_Cons_conv)
qed

lemma hd_br: "hd (br @ s) = CHR ''<''"
  by (simp add: br_def)

lemma first_marker:
  assumes "\<not> sublist br x" "x @ br @ y = p @ br @ s"
  shows "\<exists>us. p = x @ us"
proof -
  from iffD1 [OF append_eq_append_conv2, OF assms(2)] obtain us where
    "(x = p @ us \<and> us @ br @ y = br @ s) \<or> (x @ us = p \<and> br @ y = us @ br @ s)"
    by blast
  then show ?thesis
  proof
    assume c: "x = p @ us \<and> us @ br @ y = br @ s"
    show ?thesis
    proof (cases "us = []")
      case True with c show ?thesis by simp
    next
      case False
      from c have "us @ (br @ y) = br @ s" by simp
      from iffD1 [OF append_eq_append_conv2, OF this] obtain vs where
        d: "(us = br @ vs \<and> vs @ br @ y = s) \<or> (us @ vs = br \<and> br @ y = vs @ s)"
        by blast
      then show ?thesis
      proof
        assume "us = br @ vs \<and> vs @ br @ y = s"
        with c have "x = p @ br @ vs" by simp
        then have "sublist br x" by (auto simp add: sublist_def)
        with assms(1) show ?thesis by simp
      next
        assume e: "us @ vs = br \<and> br @ y = vs @ s"
        show ?thesis
        proof (cases "vs = []")
          case True
          with e c have "x = p @ br @ []" by simp
          then have "sublist br x" unfolding sublist_def by blast
          with assms(1) show ?thesis by simp
        next
          case vs: False
          from e have "hd (br @ y) = hd (vs @ s)" by simp
          with vs have "hd vs = CHR ''<''" by (simp add: hd_br)
          with br_split_hd [of us vs] e False vs show ?thesis by simp
        qed
      qed
    qed
  next
    assume "x @ us = p \<and> br @ y = us @ br @ s"
    then show ?thesis by auto
  qed
qed

lemma only_marker:
  assumes "\<not> sublist br x" "\<not> sublist br y" "x @ br @ y = p @ br @ s"
  shows "p = x \<and> s = y"
proof -
  from first_marker [OF assms(1,3)] obtain us where p: "p = x @ us" by blast
  with assms(3) have e: "br @ y = us @ (br @ s)" by simp
  show ?thesis
  proof (cases "us = []")
    case True with p e show ?thesis by simp
  next
    case False
    from iffD1 [OF append_eq_append_conv2, OF e] obtain vs where
      d: "(br = us @ vs \<and> vs @ y = br @ s) \<or> (br @ vs = us \<and> y = vs @ br @ s)"
      by blast
    then show ?thesis
    proof
      assume f: "br = us @ vs \<and> vs @ y = br @ s"
      show ?thesis
      proof (cases "vs = []")
        case True
        with f have "y = [] @ br @ s" by simp
        then have "sublist br y" unfolding sublist_def by blast
        with assms(2) show ?thesis by simp
      next
        case vs: False
        from f have "hd (vs @ y) = hd (br @ s)" by simp
        with vs have "hd vs = CHR ''<''" by (simp add: hd_br)
        with br_split_hd [of us vs] f False vs show ?thesis by simp
      qed
    next
      assume "br @ vs = us \<and> y = vs @ br @ s"
      then have "sublist br y" unfolding sublist_def by blast
      with assms(2) show ?thesis by simp
    qed
  qed
qed

lemma br_not_prefix:
  assumes "\<not> sublist br a" "a \<noteq> []"
  shows "\<not> prefix br (a @ br @ rest)"
proof
  assume "prefix br (a @ br @ rest)"
  then obtain s where "a @ br @ rest = [] @ br @ s" by (auto simp add: prefix_def)
  from first_marker [OF assms(1) this] assms(2) show False by simp
qed

lemma split_br_nonempty: "split_br s \<noteq> []"
  by (induction s rule: split_br.induct) (auto split: list.splits)

lemma split_br_marker: "split_br (br @ rest) = [] # split_br rest"
  by (simp add: br_def)

lemma split_br_first:
  "\<not> sublist br a \<Longrightarrow> split_br (a @ br @ rest) = a # split_br rest"
proof (induction a)
  case Nil
  show ?case by (simp add: split_br_marker)
next
  case (Cons c a)
  from Cons.prems have n: "\<not> sublist br a" by (auto simp add: sublist_Cons_right)
  have "\<not> prefix br ((c # a) @ br @ rest)"
    by (rule br_not_prefix [OF Cons.prems]) simp
  then show ?case using Cons.IH [OF n] by simp
qed

lemma split_br_single: "\<not> sublist br a \<Longrightarrow> split_br a = [a]"
proof (induction a)
  case Nil
  show ?case by simp
next
  case (Cons c a)
  from Cons.prems have n: "\<not> sublist br a" by (auto simp add: sublist_Cons_right)
  have "\<not> prefix br (c # a)" using Cons.prems prefix_imp_sublist by blast
  then show ?case using Cons.IH [OF n] by simp
qed

lemma split_br_join:
  "es \<noteq> [] \<Longrightarrow> \<forall>e \<in> set es. \<not> sublist br e \<Longrightarrow> split_br (join_with br es) = es"
proof (induction br es rule: join_with.induct)
  case 1
  then show ?case by simp
next
  case (2 x)
  then show ?case by (simp add: split_br_single)
next
  case (3 x y ys)
  then show ?case by (simp add: split_br_first)
qed

lemma join_with_Nil_iff:
  "\<forall>e \<in> set es. e \<noteq> [] \<Longrightarrow> join_with sep es = [] \<longleftrightarrow> es = []"
  by (induction sep es rule: join_with.induct) auto

lemma cell_entries_join:
  assumes "\<forall>e \<in> set es. e \<noteq> [] \<and> \<not> sublist br e"
  shows "cell_entries (join_entries es) = es"
proof (cases "es = []")
  case True
  then show ?thesis by (simp add: cell_entries_def join_entries_def)
next
  case False
  with assms have "join_with br es \<noteq> []" by (simp add: join_with_Nil_iff)
  with False assms show ?thesis
    by (simp add: cell_entries_def join_entries_def split_br_join)
qed

lemma remove_from_cell_join:
  assumes "\<forall>e \<in> set es. e \<noteq> [] \<and> \<not> sublist br e"
  shows "remove_from_cell n (join_entries es) = join_entries (remove1 (recipe_link n) es)"
  by (simp add: remove_from_cell_def cell_entries_join [OF assms])

lemma two_entries_clean:
  assumes "x \<noteq> []" "y \<noteq> []" "\<not> sublist br x" "\<not> sublist br y"
  shows "\<not> prefix br (x @ br @ y) \<and> \<not> suffix br (x @ br @ y) \<and> \<not> sublist (br @ br) (x @ br @ y)"
proof (intro conjI notI)
  assume "prefix br (x @ br @ y)"
  with br_not_prefix [OF assms(3,1)] show False by simp
next
  assume "suffix br (x @ br @ y)"
  then obtain p where "x @ br @ y = p @ br @ []" by (auto simp add: suffix_def)
  from only_marker [OF assms(3,4) this] assms(2) show False by simp
next
  assume "sublist (br @ br) (x @ br @ y)"
  then obtain p s where "x @ br @ y = p @ br @ (br @ s)" by (auto simp add: sublist_def)
  from only_marker [OF assms(3,4) this] have "y = [] @ br @ s" by simp
  then have "sublist br y" unfolding sublist_def by blast
  with assms(4) show False by simp
qed

section \<open>Properties of the removal from a table document\<close>

text \<open>On a table document \<open>RemoveRecipeFromMealPlan\<close> rewrites the cell of the week and day
  resolved from the date with \<open>remove_from_cell\<close>.\<close>

lemma RemoveRecipeFromMealPlan_table:
  assumes "detectMealPlanFormat (mealPlanNote ctx) = Some Table_format"
  shows "mealPlanNote (RemoveRecipeFromMealPlan rl ctx n date)
           = update_cell (remove_from_cell n) (mealPlanNote ctx)
               (GetWeekDateFromMoment date (startOfWeek ctx)) (DAYS_OF_WEEK ! nat (day date))"
  using assms by (simp add: RemoveRecipeFromMealPlan_def Let_def removeRecipeFromTable_def)

subsection \<open>Reading a rewritten row back\<close>

lemma split_on_nonempty: "split_on c s \<noteq> []"
  by (induction s) (auto split: list.splits)

lemma split_on_pieces: "p \<in> set (split_on c s) \<Longrightarrow> c \<notin> set p \<and> set p \<subseteq> set s"
proof (induction s arbitrary: p)
  case Nil
  then show ?case by simp
next
  case (Cons x xs)
  show ?case
  proof (cases "x = c")
    case True
    with Cons show ?thesis by auto
  next
    case False
    obtain q qs where q: "split_on c xs = q # qs"
      using split_on_nonempty [of c xs] by (cases "split_on c xs") auto
    with False Cons.prems have "p = x # q \<or> p \<in> set qs" by auto
    then show ?thesis
    proof
      assume "p = x # q"
      moreover have "c \<notin> set q \<and> set q \<subseteq> set xs" using Cons.IH [of q] q by simp
      ultimately show ?thesis using False by auto
    next
      assume "p \<in> set qs"
      then have "c \<notin> set p \<and> set p \<subseteq> set xs" using Cons.IH [of p] q by simp
      then show ?thesis by auto
    qed
  qed
qed

lemma split_on_append: "c \<notin> set p \<Longrightarrow> split_on c (p @ c # rest) = p # split_on c rest"
  by (induction p) auto

lemma split_on_single: "c \<notin> set p \<Longrightarrow> split_on c p = [p]"
  by (induction p) auto

lemma lines_of_unlines:
  "ls \<noteq> [] \<Longrightarrow> \<forall>l \<in> set ls. CHR 0x0A \<notin> set l \<Longrightarrow> lines_of (unlines ls) = ls"
  unfolding lines_of_def unlines_def
proof (induction "[CHR 0x0A]" ls rule: join_with.induct)
  case 1
  then show ?case by simp
next
  case (2 x)
  then show ?case by (simp add: split_on_single)
next
  case (3 x y ys)
  then show ?case by (simp add: split_on_append)
qed

lemma set_join_with: "set (join_with sep xs) \<subseteq> set sep \<union> \<Union> (set ` set xs)"
  by (induction sep xs rule: join_with.induct) auto

lemma split_on_padded:
  "cells \<noteq> [] \<Longrightarrow> \<forall>c \<in> set cells. CHR ''|'' \<notin> set c
     \<Longrightarrow> split_on (CHR ''|'') (CHR '' '' # join_with '' | '' cells @ '' |'') = map pad cells @ [[]]"
proof (induction "'' | ''" cells rule: join_with.induct)
  case 1
  then show ?case by simp
next
  case (2 x)
  have e: "CHR '' '' # join_with '' | '' [x] @ '' |'' = pad x @ CHR ''|'' # []"
    by (simp add: pad_def)
  have n: "CHR ''|'' \<notin> set (pad x)" using 2 by (simp add: pad_def)
  show ?case unfolding e split_on_append [OF n] by simp
next
  case (3 x y ys)
  have e: "CHR '' '' # join_with '' | '' (x # y # ys) @ '' |''
        = pad x @ CHR ''|'' # (CHR '' '' # join_with '' | '' (y # ys) @ '' |'')"
    by (simp add: pad_def)
  have n: "CHR ''|'' \<notin> set (pad x)" using 3(3) by (simp add: pad_def)
  have "split_on (CHR ''|'') (CHR '' '' # join_with '' | '' (y # ys) @ '' |'') = map pad (y # ys) @ [[]]"
    using 3 by simp
  then show ?case unfolding e split_on_append [OF n] by simp
qed

lemma split_on_render_row:
  assumes "cells \<noteq> []" "\<forall>c \<in> set cells. CHR ''|'' \<notin> set c"
  shows "split_on (CHR ''|'') (render_row cells) = [] # map pad cells @ [[]]"
proof -
  have "render_row cells = CHR ''|'' # (CHR '' '' # join_with '' | '' cells @ '' |'')"
    by (simp add: render_row_def)
  then show ?thesis using split_on_padded [OF assms] by simp
qed

lemma dropWhile_id: "s = [] \<or> \<not> P (hd s) \<Longrightarrow> dropWhile P s = s"
  by (cases s) auto

lemma trimmed_trim_id: "trimmed s \<Longrightarrow> trim s = s"
proof (cases "s = []")
  case True
  then show ?thesis by (simp add: trim_def)
next
  case False
  assume "trimmed s"
  with False have h: "\<not> is_space (hd s)" and l: "\<not> is_space (last s)"
    by (simp_all add: trimmed_def)
  have a: "dropWhile is_space s = s" using h by (simp add: dropWhile_id)
  have "hd (rev s) = last s" using False by (simp add: hd_rev)
  with l have b: "dropWhile is_space (rev s) = rev s" by (simp add: dropWhile_id)
  show ?thesis by (simp add: trim_def a b)
qed

lemma last_dropWhile: "dropWhile P xs \<noteq> [] \<Longrightarrow> last (dropWhile P xs) = last xs"
  by (induction xs) (auto split: if_splits)

lemma trimmed_trim: "trimmed (trim s)"
proof (cases "trim s = []")
  case True
  then show ?thesis by (simp add: trimmed_def)
next
  case False
  define t where "t = dropWhile is_space s"
  define u where "u = dropWhile is_space (rev t)"
  have ts: "trim s = rev u" by (simp add: trim_def t_def u_def)
  with False have u: "u \<noteq> []" by simp
  then have t: "t \<noteq> []" by (auto simp add: u_def)
  have "\<not> is_space (hd u)" using u unfolding u_def by (rule hd_dropWhile)
  then have l: "\<not> is_space (last (trim s))" using u by (simp add: ts last_rev)
  have "last u = last (rev t)" using u unfolding u_def by (rule last_dropWhile)
  then have "last u = hd t" using t by (simp add: last_rev)
  moreover have "\<not> is_space (hd t)" using t unfolding t_def by (rule hd_dropWhile)
  ultimately have "\<not> is_space (hd (trim s))" using u by (simp add: ts hd_rev)
  with l show ?thesis by (simp add: trimmed_def)
qed

lemma trim_pad: "trimmed c \<Longrightarrow> trim (pad c) = c"
proof (cases "c = []")
  case True
  then show ?thesis by (simp add: pad_def trim_def is_space_def)
next
  case False
  assume "trimmed c"
  with False have h: "\<not> is_space (hd c)" and l: "\<not> is_space (last c)"
    by (simp_all add: trimmed_def)
  have sp: "is_space (CHR '' '')" by (simp add: is_space_def)
  have "dropWhile is_space (pad c) = dropWhile is_space (c @ '' '')"
    using sp by (simp add: pad_def)
  also have "\<dots> = c @ '' ''" using h False by (cases c) auto
  finally have a: "dropWhile is_space (pad c) = c @ '' ''" .
  have "dropWhile is_space (rev (c @ '' '')) = dropWhile is_space (rev c)"
    using sp by simp
  also have "\<dots> = rev c" using l False by (simp add: dropWhile_id hd_rev)
  finally show ?thesis by (simp add: trim_def a)
qed

lemma set_trim: "set (trim s) \<subseteq> set s"
proof -
  have "set (trim s) = set (dropWhile is_space (rev (dropWhile is_space s)))"
    by (simp add: trim_def)
  also have "\<dots> \<subseteq> set (rev (dropWhile is_space s))" by (auto dest: set_dropWhileD)
  also have "\<dots> \<subseteq> set s" by (auto dest: set_dropWhileD)
  finally show ?thesis .
qed

lemma trim_render_row: "trim (render_row cells) = render_row cells"
proof -
  have "hd (render_row cells) = CHR ''|''" "last (render_row cells) = CHR ''|''"
    by (simp_all add: render_row_def)
  moreover have "\<not> is_space (CHR ''|'')" by (simp add: is_space_def)
  ultimately have "trimmed (render_row cells)" by (simp add: trimmed_def)
  then show ?thesis by (rule trimmed_trim_id)
qed

lemma row_cells_render_row:
  assumes "cells \<noteq> []" "\<forall>c \<in> set cells. CHR ''|'' \<notin> set c \<and> trimmed c"
  shows "row_cells (render_row cells) = cells"
proof -
  have "row_cells (render_row cells) = map trim (map pad cells)"
    using assms by (simp add: row_cells_def trim_render_row split_on_render_row butlast_append)
  also have "\<dots> = cells" using assms(2) by (simp add: trim_pad map_idI)
  finally show ?thesis .
qed

lemma row_cells_pieces:
  "c \<in> set (row_cells line) \<Longrightarrow> CHR ''|'' \<notin> set c \<and> trimmed c \<and> set c \<subseteq> set line"
proof -
  assume "c \<in> set (row_cells line)"
  then obtain p where p: "p \<in> set (butlast (tl (split_on (CHR ''|'') (trim line))))" "c = trim p"
    by (auto simp add: row_cells_def)
  from p(1) have "p \<in> set (tl (split_on (CHR ''|'') (trim line)))"
    by (rule in_set_butlastD)
  then have "p \<in> set (split_on (CHR ''|'') (trim line))"
    using list.set_sel(2) [OF split_on_nonempty] by blast
  then have "CHR ''|'' \<notin> set p \<and> set p \<subseteq> set (trim line)" by (rule split_on_pieces)
  then show ?thesis using p(2) set_trim [of p] set_trim [of line] trimmed_trim [of p] by auto
qed

lemma find_week_row_bound: "find_week_row ls w = Some i \<Longrightarrow> i < length ls"
proof -
  assume "find_week_row ls w = Some i"
  then have "i \<in> set (data_row_indices ls)"
    by (auto simp add: find_week_row_def find_Some_iff)
  then show ?thesis
    by (auto simp add: data_row_indices_def split: option.splits)
qed

lemma no_newline_in_lines: "l \<in> set (lines_of content) \<Longrightarrow> CHR 0x0A \<notin> set l"
  unfolding lines_of_def using split_on_pieces by blast

lemma set_render_row:
  "set (render_row cells) \<subseteq> {CHR ''|'', CHR '' ''} \<union> \<Union> (set ` set cells)"
  using set_join_with [of "'' | ''" cells] by (auto simp add: render_row_def)

lemma cell_read_back:
  assumes i: "i < length (lines_of content)"
    and col: "col < length (row_cells (lines_of content ! i))"
    and sub: "set x \<subseteq> set (row_cells (lines_of content ! i) ! col)"
    and tr: "trimmed x"
  shows "row_cells (lines_of (unlines ((lines_of content)
            [i := render_row ((row_cells (lines_of content ! i)) [col := x])])) ! i)
         = (row_cells (lines_of content ! i)) [col := x]"
proof -
  define ls where "ls = lines_of content"
  define cells where "cells = row_cells (ls ! i)"
  define cells' where "cells' = cells [col := x]"
  have li: "ls ! i \<in> set ls" using i by (simp add: ls_def)
  have old: "CHR ''|'' \<notin> set c \<and> trimmed c \<and> set c \<subseteq> set (ls ! i)" if "c \<in> set cells" for c
    using that row_cells_pieces unfolding cells_def by blast
  have cc: "cells ! col \<in> set cells" using col by (simp add: cells_def ls_def)
  have xs: "set x \<subseteq> set (cells ! col)" using sub by (simp add: cells_def ls_def)
  have x: "CHR ''|'' \<notin> set x \<and> trimmed x \<and> set x \<subseteq> set (ls ! i)"
    using old [OF cc] xs tr by auto
  have new: "CHR ''|'' \<notin> set c \<and> trimmed c \<and> set c \<subseteq> set (ls ! i)" if "c \<in> set cells'" for c
  proof -
    from that have "c = x \<or> c \<in> set cells"
      unfolding cells'_def using set_update_subset_insert [of cells col x] by auto
    then show ?thesis using x old by blast
  qed
  have ne: "cells' \<noteq> []" using col by (auto simp add: cells'_def cells_def ls_def)
  have rc: "row_cells (render_row cells') = cells'"
    by (rule row_cells_render_row [OF ne]) (use new in blast)
  have nl_i: "CHR 0x0A \<notin> set (ls ! i)"
    using li no_newline_in_lines unfolding ls_def by blast
  have "CHR 0x0A \<notin> set (render_row cells')"
  proof
    assume "CHR 0x0A \<in> set (render_row cells')"
    with set_render_row [of cells'] obtain c where "c \<in> set cells'" "CHR 0x0A \<in> set c"
      by auto
    with new nl_i show False by blast
  qed
  then have all: "\<forall>l \<in> set (ls [i := render_row cells']). CHR 0x0A \<notin> set l"
    using no_newline_in_lines [of _ content] set_update_subset_insert [of ls i "render_row cells'"]
    unfolding ls_def by blast
  have "ls [i := render_row cells'] \<noteq> []" using i by (auto simp add: ls_def)
  then have "lines_of (unlines (ls [i := render_row cells'])) = ls [i := render_row cells']"
    using all by (rule lines_of_unlines)
  then have "lines_of (unlines (ls [i := render_row cells'])) ! i = render_row cells'"
    using i by (simp add: ls_def)
  then show ?thesis using rc by (simp add: ls_def cells_def cells'_def)
qed

lemma two_entries_trimmed: "cell_entry p \<Longrightarrow> cell_entry q \<Longrightarrow> trimmed (p @ br @ q)"
  by (simp add: cell_entry_def trimmed_def)

lemma RemoveRecipeFromMealPlan_cell:
  assumes "detectMealPlanFormat (mealPlanNote ctx) = Some Table_format"
    and "find_week_row (lines_of (mealPlanNote ctx))
           (GetWeekDateFromMoment date (startOfWeek ctx)) = Some i"
    and "column_index (lines_of (mealPlanNote ctx)) (DAYS_OF_WEEK ! nat (day date)) = Some col"
    and "col < length (row_cells (lines_of (mealPlanNote ctx) ! i))"
    and "remove_from_cell n (cell_at (mealPlanNote ctx) i col) = p @ br @ q"
    and "cell_entry p" "cell_entry q"
    and "set (p @ br @ q) \<subseteq> set (cell_at (mealPlanNote ctx) i col)"
  shows "cell_at (mealPlanNote (RemoveRecipeFromMealPlan rl ctx n date)) i col = p @ br @ q"
proof -
  have "mealPlanNote (RemoveRecipeFromMealPlan rl ctx n date)
          = unlines ((lines_of (mealPlanNote ctx))
              [i := render_row ((row_cells (lines_of (mealPlanNote ctx) ! i)) [col := p @ br @ q])])"
    using assms(2-5)
    by (simp add: RemoveRecipeFromMealPlan_table [OF assms(1)] update_cell_def Let_def cell_at_def)
  moreover have "row_cells (lines_of (unlines ((lines_of (mealPlanNote ctx))
            [i := render_row ((row_cells (lines_of (mealPlanNote ctx) ! i)) [col := p @ br @ q])])) ! i)
         = (row_cells (lines_of (mealPlanNote ctx) ! i)) [col := p @ br @ q]"
    using find_week_row_bound [OF assms(2)] assms(4) assms(8) two_entries_trimmed [OF assms(6,7)]
    unfolding cell_at_def by (rule cell_read_back)
  ultimately show ?thesis using assms(4) by (simp add: cell_at_def)
qed

text \<open>
  Claim C3. Take a table document in which the row of the week resolved from the date
  (line \<open>i\<close>) holds, in the column of the date's day (\<open>col\<close>), a cell of three entries joined
  by the line-break marker, each entry non-empty, free of the marker and without
  surrounding whitespace. Whatever the position of the named entry, first, middle or last,
  after \<open>RemoveRecipeFromMealPlan\<close> that cell of the written document is the other two
  entries joined by one marker: no marker at the start, none at the end, none doubled.
  When the named entry stands last and the first entry has the same name, it is the first
  one that goes, which leaves the same two entries.
\<close>

theorem RemoveRecipeFromMealPlan_three_entries:
  assumes "detectMealPlanFormat (mealPlanNote ctx) = Some Table_format"
    and "find_week_row (lines_of (mealPlanNote ctx))
           (GetWeekDateFromMoment date (startOfWeek ctx)) = Some i"
    and "column_index (lines_of (mealPlanNote ctx)) (DAYS_OF_WEEK ! nat (day date)) = Some col"
    and "col < length (row_cells (lines_of (mealPlanNote ctx) ! i))"
    and "cell_at (mealPlanNote ctx) i col = a @ br @ b @ br @ c"
    and "cell_entry a \<and> cell_entry b \<and> cell_entry c"
  shows "(a = recipe_link n \<longrightarrow>
            cell_at (mealPlanNote (RemoveRecipeFromMealPlan rl ctx n date)) i col = b @ br @ c)
       \<and> (b = recipe_link n \<longrightarrow>
            cell_at (mealPlanNote (RemoveRecipeFromMealPlan rl ctx n date)) i col = a @ br @ c)
       \<and> (c = recipe_link n \<longrightarrow>
            cell_at (mealPlanNote (RemoveRecipeFromMealPlan rl ctx n date)) i col
              = (if a = c then b @ br @ a else a @ br @ b))
       \<and> (a = recipe_link n \<or> b = recipe_link n \<or> c = recipe_link n \<longrightarrow>
            \<not> prefix br (cell_at (mealPlanNote (RemoveRecipeFromMealPlan rl ctx n date)) i col)
            \<and> \<not> suffix br (cell_at (mealPlanNote (RemoveRecipeFromMealPlan rl ctx n date)) i col)
            \<and> \<not> sublist (br @ br)
                  (cell_at (mealPlanNote (RemoveRecipeFromMealPlan rl ctx n date)) i col))"
proof -
  let ?cell' = "cell_at (mealPlanNote (RemoveRecipeFromMealPlan rl ctx n date)) i col"
  have ea: "cell_entry a" and eb: "cell_entry b" and ec: "cell_entry c" using assms(6) by simp_all
  have es: "\<forall>e \<in> set [a, b, c]. e \<noteq> [] \<and> \<not> sublist br e"
    using assms(6) by (simp add: cell_entry_def)
  have j: "a @ br @ b @ br @ c = join_entries [a, b, c]"
    by (simp add: join_entries_def)
  have r: "remove_from_cell n (cell_at (mealPlanNote ctx) i col)
             = join_entries (remove1 (recipe_link n) [a, b, c])"
    unfolding assms(5) j by (rule remove_from_cell_join [OF es])
  have rb: "?cell' = p @ br @ q"
    if "join_entries (remove1 (recipe_link n) [a, b, c]) = p @ br @ q"
      "cell_entry p" "cell_entry q" "set (p @ br @ q) \<subseteq> set (a @ br @ b @ br @ c)" for p q
    by (rule RemoveRecipeFromMealPlan_cell [OF assms(1-4) _ that(2,3)])
      (use that(1,4) r assms(5) in simp_all)
  have first: "?cell' = b @ br @ c" if "a = recipe_link n"
    by (rule rb [OF _ eb ec]) (use that in \<open>auto simp add: join_entries_def\<close>)
  have middle: "?cell' = a @ br @ c" if "b = recipe_link n"
    by (rule rb [OF _ ea ec]) (use that in \<open>auto simp add: join_entries_def\<close>)
  have last_ac: "?cell' = b @ br @ a" if "c = recipe_link n" "a = c"
    by (rule rb [OF _ eb ea]) (use that in \<open>auto simp add: join_entries_def\<close>)
  have last_ab: "?cell' = a @ br @ b" if "c = recipe_link n" "a \<noteq> c"
    by (rule rb [OF _ ea eb]) (use that in \<open>auto simp add: join_entries_def\<close>)
  have last: "?cell' = (if a = c then b @ br @ a else a @ br @ b)" if "c = recipe_link n"
    using last_ac [OF that] last_ab [OF that] by simp
  have clean2: "\<not> prefix br (p @ br @ q) \<and> \<not> suffix br (p @ br @ q)
                 \<and> \<not> sublist (br @ br) (p @ br @ q)"
    if "cell_entry p" "cell_entry q" for p q
    using that by (intro two_entries_clean) (simp_all add: cell_entry_def)
  have clean: "\<not> prefix br ?cell' \<and> \<not> suffix br ?cell' \<and> \<not> sublist (br @ br) ?cell'"
    if "a = recipe_link n \<or> b = recipe_link n \<or> c = recipe_link n"
  proof -
    from that consider "a = recipe_link n" | "b = recipe_link n" | "c = recipe_link n" by blast
    then show ?thesis
    proof cases
      case 1 show ?thesis unfolding first [OF 1] by (rule clean2 [OF eb ec])
    next
      case 2 show ?thesis unfolding middle [OF 2] by (rule clean2 [OF ea ec])
    next
      case 3 show ?thesis unfolding last [OF 3]
        using clean2 [OF ea eb] clean2 [OF eb ea] by (cases "a = c") simp_all
    qed
  qed
  from first middle last clean show ?thesis by blast
qed

theorem RemoveRecipeFromMealPlan_three_entries_witness:
  "detectMealPlanFormat (mealPlanNote ctx_three) = Some Table_format
   \<and> find_week_row (lines_of (mealPlanNote ctx_three))
        (GetWeekDateFromMoment (moment_of locale_en 2024 1 8) (startOfWeek ctx_three)) = Some 2
   \<and> column_index (lines_of (mealPlanNote ctx_three))
        (DAYS_OF_WEEK ! nat (day (moment_of locale_en 2024 1 8))) = Some 2
   \<and> cell_at (mealPlanNote ctx_three) 2 2 = ''[[Recipe 1]]<br>[[Recipe 2]]<br>[[Recipe 3]]''
   \<and> cell_at (mealPlanNote (RemoveRecipeFromMealPlan (\<lambda>content w d r. content) ctx_three
          ''Recipe 1'' (moment_of locale_en 2024 1 8))) 2 2 = ''[[Recipe 2]]<br>[[Recipe 3]]''
   \<and> cell_at (mealPlanNote (RemoveRecipeFromMealPlan (\<lambda>content w d r. content) ctx_three
          ''Recipe 2'' (moment_of locale_en 2024 1 8))) 2 2 = ''[[Recipe 1]]<br>[[Recipe 3]]''
   \<and> cell_at (mealPlanNote (RemoveRecipeFromMealPlan (\<lambda>content w d r. content) ctx_three
          ''Recipe 3'' (moment_of locale_en 2024 1 8))) 2 2 = ''[[Recipe 1]]<br>[[Recipe 2]]''
   \<and> \<not> prefix br (cell_at (mealPlanNote (RemoveRecipeFromMealPlan (\<lambda>content w d r. content)
          ctx_three ''Recipe 1'' (moment_of locale_en 2024 1 8))) 2 2)"
proof -
  have h1: "detectMealPlanFormat (mealPlanNote ctx_three) = Some Table_format"
    by code_simp
  have h2: "find_week_row (lines_of (mealPlanNote ctx_three))
        (GetWeekDateFromMoment (moment_of locale_en 2024 1 8) (startOfWeek ctx_three)) = Some 2"
    by code_simp
  have h3: "column_index (lines_of (mealPlanNote ctx_three))
        (DAYS_OF_WEEK ! nat (day (moment_of locale_en 2024 1 8))) = Some 2"
    by code_simp
  have h4: "2 < length (row_cells (lines_of (mealPlanNote ctx_three) ! 2))"
    by code_simp
  have c0: "cell_at (mealPlanNote ctx_three) 2 2 = ''[[Recipe 1]]<br>[[Recipe 2]]<br>[[Recipe 3]]''"
    by code_simp
  have cell: "''[[Recipe 1]]'' @ br @ ''[[Recipe 2]]'' @ br @ ''[[Recipe 3]]''
                = ''[[Recipe 1]]<br>[[Recipe 2]]<br>[[Recipe 3]]''"
    by (simp add: br_def)
  have h5: "cell_at (mealPlanNote ctx_three) 2 2
              = ''[[Recipe 1]]'' @ br @ ''[[Recipe 2]]'' @ br @ ''[[Recipe 3]]''"
    using c0 by (simp only: cell)
  have e1: "cell_entry ''[[Recipe 1]]''" by code_simp
  have e2: "cell_entry ''[[Recipe 2]]''" by code_simp
  have e3: "cell_entry ''[[Recipe 3]]''" by code_simp
  have h6: "cell_entry ''[[Recipe 1]]'' \<and> cell_entry ''[[Recipe 2]]'' \<and> cell_entry ''[[Recipe 3]]''"
    using e1 e2 e3 by (intro conjI)
  have l1: "''[[Recipe 1]]'' = recipe_link ''Recipe 1''" by (simp add: recipe_link_def)
  have l2: "''[[Recipe 2]]'' = recipe_link ''Recipe 2''" by (simp add: recipe_link_def)
  have l3: "''[[Recipe 3]]'' = recipe_link ''Recipe 3''" by (simp add: recipe_link_def)
  have r1: "''[[Recipe 2]]'' @ br @ ''[[Recipe 3]]'' = ''[[Recipe 2]]<br>[[Recipe 3]]''"
    by (simp add: br_def)
  have r2: "''[[Recipe 1]]'' @ br @ ''[[Recipe 3]]'' = ''[[Recipe 1]]<br>[[Recipe 3]]''"
    by (simp add: br_def)
  have r3: "''[[Recipe 1]]'' @ br @ ''[[Recipe 2]]'' = ''[[Recipe 1]]<br>[[Recipe 2]]''"
    by (simp add: br_def)
  have d: "''[[Recipe 1]]'' \<noteq> ''[[Recipe 3]]''" by simp
  note t = RemoveRecipeFromMealPlan_three_entries [OF h1 h2 h3 h4 h5 h6]
  have "cell_at (mealPlanNote (RemoveRecipeFromMealPlan (\<lambda>content w d r. content) ctx_three
          ''Recipe 1'' (moment_of locale_en 2024 1 8))) 2 2 = ''[[Recipe 2]]'' @ br @ ''[[Recipe 3]]''"
    using t [of "''Recipe 1''" "\<lambda>content w d r. content"] l1 by blast
  then have w1: "cell_at (mealPlanNote (RemoveRecipeFromMealPlan (\<lambda>content w d r. content) ctx_three
          ''Recipe 1'' (moment_of locale_en 2024 1 8))) 2 2 = ''[[Recipe 2]]<br>[[Recipe 3]]''"
    by (simp only: r1)
  have "cell_at (mealPlanNote (RemoveRecipeFromMealPlan (\<lambda>content w d r. content) ctx_three
          ''Recipe 2'' (moment_of locale_en 2024 1 8))) 2 2 = ''[[Recipe 1]]'' @ br @ ''[[Recipe 3]]''"
    using t [of "''Recipe 2''" "\<lambda>content w d r. content"] l2 by blast
  then have w2: "cell_at (mealPlanNote (RemoveRecipeFromMealPlan (\<lambda>content w d r. content) ctx_three
          ''Recipe 2'' (moment_of locale_en 2024 1 8))) 2 2 = ''[[Recipe 1]]<br>[[Recipe 3]]''"
    by (simp only: r2)
  have "cell_at (mealPlanNote (RemoveRecipeFromMealPlan (\<lambda>content w d r. content) ctx_three
          ''Recipe 3'' (moment_of locale_en 2024 1 8))) 2 2
        = (if ''[[Recipe 1]]'' = ''[[Recipe 3]]'' then ''[[Recipe 2]]'' @ br @ ''[[Recipe 1]]''
           else ''[[Recipe 1]]'' @ br @ ''[[Recipe 2]]'')"
    using t [of "''Recipe 3''" "\<lambda>content w d r. content"] l3 by blast
  then have "cell_at (mealPlanNote (RemoveRecipeFromMealPlan (\<lambda>content w d r. content) ctx_three
          ''Recipe 3'' (moment_of locale_en 2024 1 8))) 2 2 = ''[[Recipe 1]]'' @ br @ ''[[Recipe 2]]''"
    using d by (simp only: if_False)
  then have w3: "cell_at (mealPlanNote (RemoveRecipeFromMealPlan (\<lambda>content w d r. content) ctx_three
          ''Recipe 3'' (moment_of locale_en 2024 1 8))) 2 2 = ''[[Recipe 1]]<br>[[Recipe 2]]''"
    by (simp only: r3)
  have w4: "\<not> prefix br (cell_at (mealPlanNote (RemoveRecipeFromMealPlan (\<lambda>content w d r. content)
          ctx_three ''Recipe 1'' (moment_of locale_en 2024 1 8))) 2 2)"
    using t [of "''Recipe 1''" "\<lambda>content w d r. content"] l1 by blast
  show ?thesis
    by (intro conjI) (rule h1 h2 h3 c0 w1 w2 w3 w4)+
qed

text \<open>The whole documents for the three positions, on the document of the tests, for
  Monday 2024-01-08 with weeks starting on Sunday.\<close>

lemma RemoveRecipeFromMealPlan_three_entries_example:
  "mealPlanNote (RemoveRecipeFromMealPlan rl
      \<lparr> startOfWeek = 0, mealPlanNote = table_jan7 ''[[Recipe 1]]<br>[[Recipe 2]]<br>[[Recipe 3]]'' \<rparr>
      ''Recipe 1'' (moment_of locale_en 2024 1 8))
     = table_jan7 ''[[Recipe 2]]<br>[[Recipe 3]]''"
  "mealPlanNote (RemoveRecipeFromMealPlan rl
      \<lparr> startOfWeek = 0, mealPlanNote = table_jan7 ''[[Recipe 1]]<br>[[Recipe 2]]<br>[[Recipe 3]]'' \<rparr>
      ''Recipe 2'' (moment_of locale_en 2024 1 8))
     = table_jan7 ''[[Recipe 1]]<br>[[Recipe 3]]''"
  "mealPlanNote (RemoveRecipeFromMealPlan rl
      \<lparr> startOfWeek = 0, mealPlanNote = table_jan7 ''[[Recipe 1]]<br>[[Recipe 2]]<br>[[Recipe 3]]'' \<rparr>
      ''Recipe 3'' (moment_of locale_en 2024 1 8))
     = table_jan7 ''[[Recipe 1]]<br>[[Recipe 2]]''"
  by code_simp+

end
